theory Spec2Isabelle
  imports Complex_Main
begin

section \<open>The slider gap locator of \<open>src/slider.ts\<close>\<close>

subsection \<open>Images\<close>

text \<open>
  The scan of \<open>findGapWithHighAccuracy\<close> touches a decoded image in three ways only:
  \<open>bitmap.width\<close>, \<open>bitmap.height\<close> and
  \<open>intToRGBA(img.getPixelColor(x, y)).r\<close>. An image is therefore its width, its height
  and its red channel as a function of the coordinates. Decoding (\<open>Jimp.read\<close>) and
  \<open>greyscale()\<close> belong to the image library; \<open>bgImg\<close> below is the background after
  both, and \<open>red\<close> is total because the library's pixel read answers for every pair of
  numbers (lemma \<open>findGap_reads_in_bounds\<close> below shows that the scan stays inside the
  grid on the inputs the function is meant for).
\<close>

record image =
  width :: int
  height :: int
  red :: "int \<Rightarrow> int \<Rightarrow> int"

subsection \<open>Numbers\<close>

text \<open>
  Every number of the source is a double. The sizes of a bitmap, the column \<open>x\<close>, the
  channel values and the sums of their differences are small integers that come from
  a decoded image, and on them the arithmetic of doubles is the arithmetic of \<open>int\<close>.
  \<open>sliderY\<close> is different: it is the caller's number, and the handler passes on any
  value that is not falsy. It is taken to be integer-valued (a row index), of any
  magnitude, so the two additions it enters, \<open>sliderY + sH\<close> and \<open>y++\<close>, are rounded
  as a double addition rounds.

  Integers up to \<open>2^53\<close> in magnitude are doubles. Beyond, the doubles around \<open>m\<close> are
  the multiples of \<open>binade m\<close>, a power of two: 2 from \<open>2^53\<close> on, 4 from \<open>2^54\<close> on, and
  so on.
\<close>

function binade :: "int \<Rightarrow> int" where
  "binade m = (if m < 2 ^ 53 then 1 else 2 * binade (m div 2))"
  by pat_completeness auto
termination
  by (relation "measure nat") auto

declare binade.simps [simp del]

text \<open>
  The double nearest to the integer \<open>n\<close>, a tie going to the neighbour whose multiple is
  even (round to nearest, ties to even), for \<open>n\<close> within the range of finite doubles.
\<close>

definition roundDouble :: "int \<Rightarrow> int" where
  "roundDouble n =
     (if \<bar>n\<bar> \<le> 2 ^ 53 then n
      else let q = binade \<bar>n\<bar>; k = n div q; r = n mod q
           in if 2 * r < q then q * k
              else if q < 2 * r then q * (k + 1)
              else if even k then q * k else q * (k + 1))"

text \<open>The addition of two integer-valued doubles: the exact sum, rounded.\<close>

definition jsAdd :: "int \<Rightarrow> int \<Rightarrow> int" where
  "jsAdd a b = roundDouble (a + b)"

subsection \<open>The two loops\<close>

text \<open>
  The inner loop (source lines 40 to 58): \<open>for (let y = sliderY; y < sliderY + sH; y++)\<close>,
  with the row guard \<open>if (y >= bgH) continue\<close> and the threshold \<open>if (diff > 15)\<close>.
  From \<open>2^53\<close> on, \<open>y++\<close> can leave \<open>y\<close> as it is; the loop then never ends, and the
  value of the function is \<open>None\<close>.
\<close>

partial_function (option)
  rowLoop :: "image \<Rightarrow> int \<Rightarrow> int \<Rightarrow> int \<Rightarrow> int \<Rightarrow> int \<Rightarrow> int option" where
  "rowLoop bgImg sH sliderY x y currentColumnScore =
     (if y < jsAdd sliderY sH then
        (if y \<ge> height bgImg
         then rowLoop bgImg sH sliderY x (jsAdd y 1) currentColumnScore
         else
           let prevPixel = red bgImg (x - 1) y;
               currPixel = red bgImg x y;
               diff = prevPixel - currPixel
           in if diff > 15
              then rowLoop bgImg sH sliderY x (jsAdd y 1) (currentColumnScore + diff)
              else rowLoop bgImg sH sliderY x (jsAdd y 1) currentColumnScore)
      else Some currentColumnScore)"

text \<open>
  One pass of the outer loop's body up to line 58: the score of column \<open>x\<close>, when the
  inner loop ends.
\<close>

definition columnScore :: "image \<Rightarrow> int \<Rightarrow> int \<Rightarrow> int \<Rightarrow> int option" where
  "columnScore bgImg sH sliderY x = rowLoop bgImg sH sliderY x sliderY 0"

text \<open>The two variables the outer loop updates (lines 31, 32, 63, 64).\<close>

record tracked =
  maxScore :: int
  bestX :: int

text \<open>
  The outer loop (lines 35 to 66): \<open>for (let x = startX; x < endX; x++)\<close>. It goes on to
  the next column only when the inner loop has ended.
\<close>

function colLoop :: "image \<Rightarrow> int \<Rightarrow> int \<Rightarrow> int \<Rightarrow> int \<Rightarrow> tracked \<Rightarrow> tracked option" where
  "colLoop bgImg sH sliderY xEnd x t =
     (if x < xEnd then
        (case columnScore bgImg sH sliderY x of
           None \<Rightarrow> None
         | Some currentColumnScore \<Rightarrow>
             if currentColumnScore > maxScore t
             then colLoop bgImg sH sliderY xEnd (x + 1)
                    (t\<lparr>maxScore := currentColumnScore, bestX := x\<rparr>)
             else colLoop bgImg sH sliderY xEnd (x + 1) t)
      else Some t)"
  by pat_completeness auto
termination
  by (relation "measure (\<lambda>(bgImg, sH, sliderY, xEnd, x, t). nat (xEnd - x))") auto

declare colLoop.simps [simp del]

text \<open>
  The scan window (lines 27 and 28): \<open>startX = sW + 5\<close> and \<open>endX = bgW - sW - 5\<close>; the
  outer loop visits the columns \<open>startX \<le> x < endX\<close>.
\<close>

definition startX :: "image \<Rightarrow> int" where
  "startX sliderImg = width sliderImg + 5"

definition endX :: "image \<Rightarrow> image \<Rightarrow> int" where
  "endX bgImg sliderImg = width bgImg - width sliderImg - 5"

text \<open>
  The function from line 23 on, given the decoded images: the slider image gives \<open>sW\<close>
  and \<open>sH\<close> only, the tracked pair starts at \<open>maxScore = -1\<close>, \<open>bestX = 0\<close>, and the
  function returns \<open>bestX\<close> after the scan: \<open>Some bestX\<close>, and \<open>None\<close> when the scan does
  not end.
\<close>

definition findGapWithHighAccuracy :: "image \<Rightarrow> image \<Rightarrow> int \<Rightarrow> int option" where
  "findGapWithHighAccuracy bgImg sliderImg sliderY =
     (let sH = height sliderImg
      in map_option bestX
           (colLoop bgImg sH sliderY (endX bgImg sliderImg) (startX sliderImg)
              \<lparr>maxScore = -1, bestX = 0\<rparr>))"

subsection \<open>The request handler\<close>

text \<open>
  The values \<open>req.json()\<close> can produce. An object is the list of its own properties, each
  key once; a JSON number is a rational here (\<open>JSON.parse\<close> yields no \<open>NaN\<close>, and the
  infinity an overflowing literal gives is truthy like every other number but 0).
\<close>

datatype jsvalue =
    Undefined
  | Null
  | Boolean bool
  | Number rat
  | String string
  | Array "jsvalue list"
  | Object "(string \<times> jsvalue) list"

text \<open>The operator \<open>!v\<close>: true on \<open>undefined\<close>, \<open>null\<close>, \<open>false\<close>, \<open>0\<close> and \<open>""\<close>.\<close>

fun falsy :: "jsvalue \<Rightarrow> bool" where
  "falsy Undefined = True"
| "falsy Null = True"
| "falsy (Boolean b) = (\<not> b)"
| "falsy (Number n) = (n = 0)"
| "falsy (String s) = (s = [])"
| "falsy (Array vs) = False"
| "falsy (Object ps) = False"

text \<open>
  Reading a named property in the destructuring of line 79: the property of an object,
  \<open>undefined\<close> when it has none and on every other value that is not \<open>null\<close>.
\<close>

fun getProp :: "jsvalue \<Rightarrow> string \<Rightarrow> jsvalue" where
  "getProp (Object ps) k = (case map_of ps k of Some v \<Rightarrow> v | None \<Rightarrow> Undefined)"
| "getProp v k = Undefined"

datatype error =
    SyntaxError    \<comment> \<open>\<open>req.json()\<close> rejects: the body is not JSON\<close>
  | TypeError      \<comment> \<open>destructuring \<open>null\<close>\<close>
  | CoreError      \<comment> \<open>the awaited call of line 84 rejects (an image does not decode)\<close>

text \<open>
  What the handler reads of a request: \<open>req.method\<close> (the field \<open>httpMethod\<close>) and the
  outcome of \<open>await req.json()\<close>.
\<close>

record request =
  httpMethod :: string
  json :: "error + jsvalue"

datatype response_body = Text string | JsonX int

record response =
  body :: response_body
  status :: nat

text \<open>
  The handler (lines 74 to 87). The call of line 84, with the decoding it starts with,
  is the parameter \<open>core\<close>; an exception leaves the handler as \<open>Inl\<close>.
\<close>

definition handler ::
  "(jsvalue \<Rightarrow> jsvalue \<Rightarrow> jsvalue \<Rightarrow> error + int) \<Rightarrow> request \<Rightarrow> error + response" where
  "handler core req =
     (if httpMethod req \<noteq> ''POST'' then Inr \<lparr>body = Text ''Method Not Allowed'', status = 405\<rparr>
      else case json req of
        Inl e \<Rightarrow> Inl e
      | Inr v \<Rightarrow>
          if v = Null then Inl TypeError else
          let bgBase64 = getProp v ''bgBase64'';
              sliderBase64 = getProp v ''sliderBase64'';
              sliderY = getProp v ''sliderY''
          in if falsy bgBase64
               then Inr \<lparr>body = Text ''Missing Parameter `bgBase64`'', status = 400\<rparr>
             else if falsy sliderBase64
               then Inr \<lparr>body = Text ''Missing Parameter `sliderBase64`'', status = 400\<rparr>
             else if falsy sliderY
               then Inr \<lparr>body = Text ''Missing Parameter `sliderY`'', status = 400\<rparr>
             else (case core bgBase64 sliderBase64 sliderY of
                     Inl e \<Rightarrow> Inl e
                   | Inr x \<Rightarrow> Inr \<lparr>body = JsonX x, status = 200\<rparr>))"

subsection \<open>Auxiliary notions for the proofs\<close>

text \<open>
  What one row adds to a column's score (lines 46 to 57): the brightness drop from column
  \<open>x - 1\<close> to column \<open>x\<close> when it exceeds 15, nothing otherwise; and the sum of these
  over the rows of the band that lie below the height of the grid.
\<close>

definition drop_at :: "image \<Rightarrow> int \<Rightarrow> int \<Rightarrow> int" where
  "drop_at bgImg x y =
     (let diff = red bgImg (x - 1) y - red bgImg x y in if diff > 15 then diff else 0)"

definition bandScore :: "image \<Rightarrow> int \<Rightarrow> int \<Rightarrow> int \<Rightarrow> int" where
  "bandScore bgImg sH sliderY x =
     (\<Sum>y | sliderY \<le> y \<and> y < sliderY + sH \<and> y < height bgImg. drop_at bgImg x y)"

text \<open>
  The invariant of the outer loop once some column has beaten the tracked maximum:
  \<open>t'\<close> holds the leftmost column of \<open>[x, xEnd)\<close> whose score is the greatest there, and
  that score exceeds the maximum tracked in \<open>t\<close>.
\<close>

definition leftmost_best :: "(int \<Rightarrow> int) \<Rightarrow> int \<Rightarrow> int \<Rightarrow> tracked \<Rightarrow> tracked \<Rightarrow> bool" where
  "leftmost_best score x xEnd t t' \<longleftrightarrow>
     x \<le> bestX t' \<and> bestX t' < xEnd \<and> maxScore t' = score (bestX t') \<and>
     maxScore t < maxScore t' \<and>
     (\<forall>x'. x \<le> x' \<and> x' < xEnd \<longrightarrow> score x' \<le> maxScore t') \<and>
     (\<forall>x'. x \<le> x' \<and> x' < bestX t' \<longrightarrow> score x' < maxScore t')"

subsection \<open>Concrete images\<close>

text \<open>
  The grid of the two scenarios: 100 by 50, brightness 200, with the columns 60 to 79 at
  brightness 60; the slider piece is 20 by 50 (its pixels are never read). The second
  grid has one more pixel of brightness 0 at column 30, row 10.
\<close>

definition scenarioGrid :: image where
  "scenarioGrid =
     \<lparr>width = 100, height = 50, red = (\<lambda>x y. if 60 \<le> x \<and> x \<le> 79 then 60 else 200)\<rparr>"

definition scenarioSlider :: image where
  "scenarioSlider = \<lparr>width = 20, height = 50, red = (\<lambda>x y. 0)\<rparr>"

definition noisyGrid :: image where
  "noisyGrid =
     \<lparr>width = 100, height = 50,
      red = (\<lambda>x y. if x = 30 \<and> y = 10 then 0 else if 60 \<le> x \<and> x \<le> 79 then 60 else 200)\<rparr>"

text \<open>
  Small images, all one or two rows high. Two flat grids of brightness 200, 13 and 14
  wide: for a slider of width 1 their windows are the column 6 and the columns 6 and 7.
  A grid 14 wide and two rows high that darkens from 200 to 60 at column 7. A grid 15
  wide (window 6, 7, 8) that darkens by 100 at column 6 and again by 100 at column 7,
  so that these two columns tie. The stepped grid again with brightness 0 written
  into every row from row 2 on, that is, outside its two rows. Sliders of width 1,
  one and three rows high.
\<close>

definition flatGrid :: image where
  "flatGrid = \<lparr>width = 13, height = 1, red = (\<lambda>x y. 200)\<rparr>"

definition flatGrid14 :: image where
  "flatGrid14 = \<lparr>width = 14, height = 1, red = (\<lambda>x y. 200)\<rparr>"

definition stepGrid :: image where
  "stepGrid = \<lparr>width = 14, height = 2, red = (\<lambda>x y. if x < 7 then 200 else 60)\<rparr>"

definition tieGrid :: image where
  "tieGrid =
     \<lparr>width = 15, height = 1, red = (\<lambda>x y. if x < 6 then 200 else if x < 7 then 100 else 0)\<rparr>"

definition shadedGrid :: image where
  "shadedGrid =
     \<lparr>width = 14, height = 2,
      red = (\<lambda>x y. if 2 \<le> y then 0 else if x < 7 then 200 else 60)\<rparr>"

definition unitSlider :: image where
  "unitSlider = \<lparr>width = 1, height = 1, red = (\<lambda>x y. 0)\<rparr>"

definition tallSlider :: image where
  "tallSlider = \<lparr>width = 1, height = 3, red = (\<lambda>x y. 0)\<rparr>"

subsection \<open>Concrete requests\<close>

text \<open>
  Two parsed bodies whose \<open>sliderY\<close> is the number 0, the second without \<open>bgBase64\<close>,
  and two stand-ins for the call of line 84: one that returns a column, one that rejects.
\<close>

definition zeroYBody :: jsvalue where
  "zeroYBody =
     Object [(''bgBase64'', String ''Zm9v''), (''sliderBase64'', String ''YmFy''),
             (''sliderY'', Number 0)]"

definition noBgBody :: jsvalue where
  "noBgBody = Object [(''sliderBase64'', String ''YmFy''), (''sliderY'', Number 0)]"

definition constCore :: "jsvalue \<Rightarrow> jsvalue \<Rightarrow> jsvalue \<Rightarrow> error + int" where
  "constCore bgBase64 sliderBase64 sliderY = Inr 60"

definition failingCore :: "jsvalue \<Rightarrow> jsvalue \<Rightarrow> jsvalue \<Rightarrow> error + int" where
  "failingCore bgBase64 sliderBase64 sliderY = Inl CoreError"

section \<open>Properties of the scan\<close>

subsection \<open>Rounding\<close>

text \<open>
  Within \<open>-2^53 \<le> sliderY\<close> and \<open>sliderY + sH \<le> 2^53\<close> the two rounded additions of the
  inner loop are exact, or, for a band that ends below \<open>-2^53\<close>, the loop does not run.
\<close>

lemma roundDouble_exact: "\<bar>n\<bar> \<le> 2 ^ 53 \<Longrightarrow> roundDouble n = n"
  by (simp add: roundDouble_def)

lemma binade_bounds:
  "2 ^ 53 \<le> m \<Longrightarrow> 2 \<le> binade m \<and> 2 ^ 52 * binade m \<le> m \<and> m < 2 ^ 53 * binade m"
proof (induction m rule: binade.induct)
  case (1 m)
  show ?case
  proof (cases "m div 2 < 2 ^ 53")
    case True
    then have "binade (m div 2) = 1" by (subst binade.simps) simp
    with "1.prems" have "binade m = 2" by (subst binade.simps) simp
    with "1.prems" True show ?thesis by simp
  next
    case False
    with "1.IH" "1.prems" have IH: "2 \<le> binade (m div 2)"
      "2 ^ 52 * binade (m div 2) \<le> m div 2" "m div 2 < 2 ^ 53 * binade (m div 2)"
      by simp_all
    from "1.prems" have b: "binade m = 2 * binade (m div 2)" by (subst binade.simps) simp
    have "2 * (m div 2) \<le> m" and "m < 2 * (m div 2) + 2" by simp_all
    with IH show ?thesis unfolding b by simp
  qed
qed

lemma roundDouble_below:
  assumes "n < - (2 ^ 53)"
  shows "roundDouble n \<le> - (2 ^ 53)"
proof -
  define q where "q = binade \<bar>n\<bar>"
  define k where "k = n div q"
  define r where "r = n mod q"
  from assms have big: "2 ^ 53 \<le> \<bar>n\<bar>" by simp
  from binade_bounds [OF big] have q2: "2 \<le> q" and lo: "2 ^ 52 * q \<le> - n"
    using assms by (simp_all add: q_def)
  have n: "n = q * k + r" by (simp add: k_def r_def)
  from q2 have r: "0 \<le> r" "r < q" by (simp_all add: r_def)
  have down: "q * k \<le> - (2 ^ 53)" using n r assms by simp
  have up: "q * (k + 1) \<le> - (2 ^ 53)" if "0 < r"
  proof -
    from that n lo have lt: "q * k < q * (- (2 ^ 52))" by simp
    have "\<not> - (2 ^ 52) \<le> k"
    proof
      assume "- (2 ^ 52) \<le> k"
      with q2 have "q * (- (2 ^ 52)) \<le> q * k" by (intro mult_left_mono) simp_all
      with lt show False by simp
    qed
    then have "k + 1 \<le> - (2 ^ 52)" by simp
    with q2 have "q * (k + 1) \<le> q * (- (2 ^ 52))" by (intro mult_left_mono) simp_all
    also from q2 have "\<dots> \<le> 2 * (- (2 ^ 52))" by simp
    finally show ?thesis by simp
  qed
  from assms have "roundDouble n =
      (if 2 * r < q then q * k
       else if q < 2 * r then q * (k + 1)
       else if even k then q * k else q * (k + 1))"
    by (simp add: roundDouble_def Let_def q_def k_def r_def)
  with down up q2 show ?thesis by (auto split: if_splits)
qed

lemma band_guard:
  assumes "- (2 ^ 53) \<le> sliderY" and "sliderY + sH \<le> 2 ^ 53" and "sliderY \<le> y"
  shows "y < jsAdd sliderY sH \<longleftrightarrow> y < sliderY + sH"
proof (cases "- (2 ^ 53) \<le> sliderY + sH")
  case True
  with assms(2) have "jsAdd sliderY sH = sliderY + sH"
    by (simp add: jsAdd_def roundDouble_exact)
  then show ?thesis by simp
next
  case False
  then have "roundDouble (sliderY + sH) \<le> - (2 ^ 53)" by (intro roundDouble_below) simp
  with False assms show ?thesis by (simp add: jsAdd_def)
qed

lemma jsAdd_one: "- (2 ^ 53) \<le> y \<Longrightarrow> y < 2 ^ 53 \<Longrightarrow> jsAdd y 1 = y + 1"
  by (simp add: jsAdd_def roundDouble_exact)

lemma jsAdd_exact: "\<bar>a + b\<bar> \<le> 2 ^ 53 \<Longrightarrow> jsAdd a b = a + b"
  by (simp add: jsAdd_def roundDouble_exact)

subsection \<open>The score of a column\<close>

lemma rows_set_step:
  fixes y e h :: int
  assumes "y < e" "y < h"
  shows "{y'. y \<le> y' \<and> y' < e \<and> y' < h} = insert y {y'. y + 1 \<le> y' \<and> y' < e \<and> y' < h}"
  using assms by auto

lemma rows_set_finite:
  fixes y e h :: int
  shows "finite {y'. y \<le> y' \<and> y' < e \<and> y' < h}"
proof -
  have "{y'. y \<le> y' \<and> y' < e \<and> y' < h} \<subseteq> {y..<e}" by auto
  then show ?thesis by (rule finite_subset) simp
qed

lemma rowLoop_sum:
  assumes lo: "- (2 ^ 53) \<le> sliderY" and hi: "sliderY + sH \<le> 2 ^ 53"
  shows "sliderY \<le> y \<Longrightarrow> rowLoop bgImg sH sliderY x y s =
     Some (s + (\<Sum>y' | y \<le> y' \<and> y' < sliderY + sH \<and> y' < height bgImg. drop_at bgImg x y'))"
proof (induction "nat (sliderY + sH - y)" arbitrary: y s rule: less_induct)
  case less
  let ?rows = "\<lambda>y. {y'. y \<le> y' \<and> y' < sliderY + sH \<and> y' < height bgImg}"
  note above = \<open>sliderY \<le> y\<close>
  note guard = band_guard [OF lo hi above]
  show ?case
  proof (cases "y < sliderY + sH")
    case False
    then have "?rows y = {}" by auto
    then have "sum (drop_at bgImg x) (?rows y) = 0" by (simp only: sum.empty)
    moreover from False guard have "rowLoop bgImg sH sliderY x y s = Some s"
      by (subst rowLoop.simps) simp
    ultimately show ?thesis by simp
  next
    case inband: True
    with lo hi above have "jsAdd y 1 = y + 1" by (intro jsAdd_one) simp_all
    note unfold = rowLoop.simps [of bgImg sH sliderY x y s, unfolded this]
    from inband above have IH: "rowLoop bgImg sH sliderY x (y + 1) s' =
        Some (s' + sum (drop_at bgImg x) (?rows (y + 1)))" for s'
      by (intro less.hyps) simp_all
    show ?thesis
    proof (cases "height bgImg \<le> y")
      case True
      then have "?rows y = {}" and "?rows (y + 1) = {}" by auto
      then have "sum (drop_at bgImg x) (?rows y) = 0"
        and "sum (drop_at bgImg x) (?rows (y + 1)) = 0" by (simp_all only: sum.empty)
      moreover from inband True guard
      have "rowLoop bgImg sH sliderY x y s = rowLoop bgImg sH sliderY x (y + 1) s"
        by (subst unfold) simp
      ultimately show ?thesis using IH [of s] by simp
    next
      case False
      then have inb: "y < height bgImg" by simp
      have "y \<notin> ?rows (y + 1)" by simp
      with rows_set_finite
      have "sum (drop_at bgImg x) (insert y (?rows (y + 1)))
          = drop_at bgImg x y + sum (drop_at bgImg x) (?rows (y + 1))"
        by (rule sum.insert)
      then have split: "sum (drop_at bgImg x) (?rows y)
          = drop_at bgImg x y + sum (drop_at bgImg x) (?rows (y + 1))"
        by (simp only: rows_set_step [OF inband inb])
      show ?thesis
      proof (cases "red bgImg (x - 1) y - red bgImg x y > 15")
        case True
        with inband False guard
        have "rowLoop bgImg sH sliderY x y s
            = rowLoop bgImg sH sliderY x (y + 1) (s + (red bgImg (x - 1) y - red bgImg x y))"
          by (subst unfold) (simp add: Let_def)
        moreover from True have "drop_at bgImg x y = red bgImg (x - 1) y - red bgImg x y"
          by (simp add: drop_at_def Let_def)
        ultimately show ?thesis
          using IH [of "s + (red bgImg (x - 1) y - red bgImg x y)"] split by simp
      next
        case nd: False
        with inband False guard
        have "rowLoop bgImg sH sliderY x y s = rowLoop bgImg sH sliderY x (y + 1) s"
          by (subst unfold) (simp add: Let_def)
        moreover from nd have "drop_at bgImg x y = 0"
          by (simp add: drop_at_def Let_def)
        ultimately show ?thesis using IH [of s] split by simp
      qed
    qed
  qed
qed

lemma drop_at_nonneg: "0 \<le> drop_at bgImg x y"
  by (simp add: drop_at_def Let_def)

lemma bandScore_nonneg: "0 \<le> bandScore bgImg sH sliderY x"
  unfolding bandScore_def by (rule sum_nonneg) (simp add: drop_at_nonneg)

lemma columnScore_sum:
  assumes "- (2 ^ 53) \<le> sliderY" and "sliderY + sH \<le> 2 ^ 53"
  shows "columnScore bgImg sH sliderY x = Some (bandScore bgImg sH sliderY x)"
  using rowLoop_sum [OF assms, of sliderY bgImg x 0]
  by (simp add: columnScore_def bandScore_def)

subsection \<open>When the inner loop does not end\<close>

lemmas rowLoop_raw = rowLoop.raw_induct [where xa = "(((((bgImg, sH), sliderY), x), y), s)"
    and ya = r, simplified] for bgImg sH sliderY x y s r

lemma rowLoop_Some_moves:
  assumes run: "rowLoop bgImg sH sliderY x y s = Some r"
  shows "\<not> (y < jsAdd sliderY sH \<and> height bgImg \<le> y \<and> jsAdd y 1 = y)"
proof (rule rowLoop_raw [where P = "\<lambda>bgImg sH sliderY x y s r.
      \<not> (y < jsAdd sliderY sH \<and> height bgImg \<le> y \<and> jsAdd y 1 = y)", OF _ run])
  fix f :: "image \<Rightarrow> int \<Rightarrow> int \<Rightarrow> int \<Rightarrow> int \<Rightarrow> int \<Rightarrow> int option"
    and bgImg sH sliderY x y s r
  assume IH: "\<And>bgImg sH sliderY x y s r. f bgImg sH sliderY x y s = Some r \<Longrightarrow>
      \<not> (y < jsAdd sliderY sH \<and> height bgImg \<le> y \<and> jsAdd y 1 = y)"
    and body: "(if y < jsAdd sliderY sH
      then if height bgImg \<le> y
           then f bgImg sH sliderY x (jsAdd y 1) s
           else let prevPixel = red bgImg (x - 1) y;
                    currPixel = red bgImg x y; diff = prevPixel - currPixel
                in if 15 < diff
                   then f bgImg sH sliderY x (jsAdd y 1) (s + diff)
                   else f bgImg sH sliderY x (jsAdd y 1) s
      else Some s) = Some r"
  show "\<not> (y < jsAdd sliderY sH \<and> height bgImg \<le> y \<and> jsAdd y 1 = y)"
  proof
    assume st: "y < jsAdd sliderY sH \<and> height bgImg \<le> y \<and> jsAdd y 1 = y"
    with body have "f bgImg sH sliderY x y s = Some r" by simp
    from IH [OF this] st show False by simp
  qed
qed

lemma rowLoop_stalls:
  assumes "y < jsAdd sliderY sH" and "height bgImg \<le> y" and "jsAdd y 1 = y"
  shows "rowLoop bgImg sH sliderY x y s = None"
proof (rule ccontr)
  assume "rowLoop bgImg sH sliderY x y s \<noteq> None"
  then obtain r where "rowLoop bgImg sH sliderY x y s = Some r" by auto
  from rowLoop_Some_moves [OF this] assms show False by simp
qed

lemma rowLoop_Some_grows:
  assumes run: "rowLoop bgImg sH sliderY x y s = Some r"
  shows "s \<le> r"
proof (rule rowLoop_raw [where P = "\<lambda>bgImg sH sliderY x y s r. s \<le> r", OF _ run])
  fix f :: "image \<Rightarrow> int \<Rightarrow> int \<Rightarrow> int \<Rightarrow> int \<Rightarrow> int \<Rightarrow> int option"
    and bgImg sH sliderY x y s r
  assume IH: "\<And>bgImg sH sliderY x y s r. f bgImg sH sliderY x y s = Some r \<Longrightarrow> s \<le> r"
    and body: "(if y < jsAdd sliderY sH
      then if height bgImg \<le> y
           then f bgImg sH sliderY x (jsAdd y 1) s
           else let prevPixel = red bgImg (x - 1) y;
                    currPixel = red bgImg x y; diff = prevPixel - currPixel
                in if 15 < diff
                   then f bgImg sH sliderY x (jsAdd y 1) (s + diff)
                   else f bgImg sH sliderY x (jsAdd y 1) s
      else Some s) = Some r"
  show "s \<le> r"
  proof (cases "y < jsAdd sliderY sH")
    case False
    with body show ?thesis by simp
  next
    case inband: True
    show ?thesis
    proof (cases "height bgImg \<le> y")
      case True
      with inband body have "f bgImg sH sliderY x (jsAdd y 1) s = Some r" by simp
      then show ?thesis by (rule IH)
    next
      case False
      show ?thesis
      proof (cases "15 < red bgImg (x - 1) y - red bgImg x y")
        case True
        with inband False body
        have "f bgImg sH sliderY x (jsAdd y 1) (s + (red bgImg (x - 1) y - red bgImg x y)) = Some r"
          by (simp add: Let_def)
        then have "s + (red bgImg (x - 1) y - red bgImg x y) \<le> r" by (rule IH)
        with True show ?thesis by simp
      next
        case nd: False
        with inband False body have "f bgImg sH sliderY x (jsAdd y 1) s = Some r"
          by (simp add: Let_def)
        then show ?thesis by (rule IH)
      qed
    qed
  qed
qed

lemma columnScore_Some_nonneg: "columnScore bgImg sH sliderY x = Some s \<Longrightarrow> 0 \<le> s"
  unfolding columnScore_def by (rule rowLoop_Some_grows)

subsection \<open>The outer loop\<close>

lemma colLoop_exit: "\<not> x < xEnd \<Longrightarrow> colLoop bgImg sH sliderY xEnd x t = Some t"
  by (subst colLoop.simps) simp

lemma colLoop_Some_range:
  "colLoop bgImg sH sliderY xEnd x t = Some t' \<Longrightarrow>
   bestX t' = bestX t \<or> (x \<le> bestX t' \<and> bestX t' < xEnd)"
proof (induction bgImg sH sliderY xEnd x t rule: colLoop.induct)
  case (1 bgImg sH sliderY xEnd x t)
  show ?case
  proof (cases "x < xEnd")
    case False
    with "1.prems" show ?thesis by (simp add: colLoop_exit)
  next
    case inwin: True
    with "1.prems" obtain s where sc: "columnScore bgImg sH sliderY x = Some s"
      by (subst (asm) colLoop.simps) (auto split: option.splits)
    show ?thesis
    proof (cases "s > maxScore t")
      case True
      with inwin sc "1.prems"
      have "colLoop bgImg sH sliderY xEnd (x + 1) (t\<lparr>maxScore := s, bestX := x\<rparr>) = Some t'"
        by (subst (asm) colLoop.simps) simp
      from "1.IH"(1) [OF inwin sc True this] inwin show ?thesis by auto
    next
      case False
      with inwin sc "1.prems" have "colLoop bgImg sH sliderY xEnd (x + 1) t = Some t'"
        by (subst (asm) colLoop.simps) simp
      from "1.IH"(2) [OF inwin sc False this] show ?thesis by auto
    qed
  qed
qed

lemma colLoop_keep:
  "(\<And>x'. x \<le> x' \<Longrightarrow> x' < xEnd \<Longrightarrow> columnScore bgImg sH sliderY x' = Some (score x')) \<Longrightarrow>
   (\<And>x'. x \<le> x' \<Longrightarrow> x' < xEnd \<Longrightarrow> score x' \<le> maxScore t) \<Longrightarrow>
   colLoop bgImg sH sliderY xEnd x t = Some t"
proof (induction bgImg sH sliderY xEnd x t rule: colLoop.induct)
  case (1 bgImg sH sliderY xEnd x t)
  show ?case
  proof (cases "x < xEnd")
    case False
    then show ?thesis by (rule colLoop_exit)
  next
    case True
    then have sc: "columnScore bgImg sH sliderY x = Some (score x)"
      by (intro "1.prems"(1)) simp_all
    from True "1.prems"(2) [of x] have le: "\<not> score x > maxScore t" by simp
    from True sc le
    have "colLoop bgImg sH sliderY xEnd x t = colLoop bgImg sH sliderY xEnd (x + 1) t"
      by (subst colLoop.simps) simp
    also have "\<dots> = Some t"
      using True le by (intro "1.IH"(2) [OF True sc le] "1.prems") simp_all
    finally show ?thesis .
  qed
qed

lemma leftmost_best_step:
  assumes later: "leftmost_best score (x + 1) xEnd t1 t'"
    and t1: "maxScore t \<le> maxScore t1" and here: "score x \<le> maxScore t1"
  shows "leftmost_best score x xEnd t t'"
proof -
  from later have b: "x + 1 \<le> bestX t'" "bestX t' < xEnd" "maxScore t' = score (bestX t')"
    and gt: "maxScore t1 < maxScore t'"
    and all: "\<And>x'. x + 1 \<le> x' \<Longrightarrow> x' < xEnd \<Longrightarrow> score x' \<le> maxScore t'"
    and left: "\<And>x'. x + 1 \<le> x' \<Longrightarrow> x' < bestX t' \<Longrightarrow> score x' < maxScore t'"
    unfolding leftmost_best_def by blast+
  have all': "score x' \<le> maxScore t'" if "x \<le> x'" "x' < xEnd" for x'
  proof (cases "x' = x")
    case True
    with here gt show ?thesis by simp
  next
    case False
    with that have "x + 1 \<le> x'" by simp
    with that show ?thesis by (simp add: all)
  qed
  have left': "score x' < maxScore t'" if "x \<le> x'" "x' < bestX t'" for x'
  proof (cases "x' = x")
    case True
    with here gt show ?thesis by simp
  next
    case False
    with that have "x + 1 \<le> x'" by simp
    with that show ?thesis by (simp add: left)
  qed
  from b have "x \<le> bestX t'" by simp
  moreover from t1 gt have "maxScore t < maxScore t'" by simp
  ultimately show ?thesis
    unfolding leftmost_best_def using b(2,3) all' left' by blast
qed

lemma leftmost_best_here:
  assumes win: "x < xEnd" and gt: "maxScore t < score x"
    and rest: "\<And>x'. x + 1 \<le> x' \<Longrightarrow> x' < xEnd \<Longrightarrow> score x' \<le> score x"
  shows "leftmost_best score x xEnd t (t\<lparr>maxScore := score x, bestX := x\<rparr>)"
proof -
  have "score x' \<le> score x" if "x \<le> x'" "x' < xEnd" for x'
  proof (cases "x' = x")
    case True
    then show ?thesis by simp
  next
    case False
    with that have "x + 1 \<le> x'" by simp
    with that show ?thesis by (simp add: rest)
  qed
  with win gt show ?thesis by (simp add: leftmost_best_def)
qed

lemma colLoop_best:
  "(\<And>x'. x \<le> x' \<Longrightarrow> x' < xEnd \<Longrightarrow> columnScore bgImg sH sliderY x' = Some (score x')) \<Longrightarrow>
   \<exists>x'. x \<le> x' \<and> x' < xEnd \<and> maxScore t < score x' \<Longrightarrow>
   \<exists>t'. colLoop bgImg sH sliderY xEnd x t = Some t' \<and> leftmost_best score x xEnd t t'"
proof (induction bgImg sH sliderY xEnd x t rule: colLoop.induct)
  case (1 bgImg sH sliderY xEnd x t)
  note scores = "1.prems"(1)
  from "1.prems"(2) obtain x0 where x0: "x \<le> x0" "x0 < xEnd" "maxScore t < score x0" by blast
  then have inwin: "x < xEnd" by simp
  then have sc: "columnScore bgImg sH sliderY x = Some (score x)"
    by (intro scores) simp_all
  have later: "columnScore bgImg sH sliderY x' = Some (score x')"
    if "x + 1 \<le> x'" "x' < xEnd" for x'
    using that by (intro scores) simp_all
  show ?case
  proof (cases "score x > maxScore t")
    case True
    let ?t1 = "t\<lparr>maxScore := score x, bestX := x\<rparr>"
    from inwin sc True
    have unf: "colLoop bgImg sH sliderY xEnd x t = colLoop bgImg sH sliderY xEnd (x + 1) ?t1"
      by (subst colLoop.simps) simp
    show ?thesis
    proof (cases "\<exists>x'. x + 1 \<le> x' \<and> x' < xEnd \<and> score x < score x'")
      case more: True
      then have "\<exists>x'. x + 1 \<le> x' \<and> x' < xEnd \<and> maxScore ?t1 < score x'" by simp
      with later obtain t' where run: "colLoop bgImg sH sliderY xEnd (x + 1) ?t1 = Some t'"
        and lb: "leftmost_best score (x + 1) xEnd ?t1 t'"
        using "1.IH"(1) [OF inwin sc True] by blast
      from lb have "leftmost_best score x xEnd t t'"
        by (rule leftmost_best_step) (use True in simp_all)
      with run show ?thesis by (simp add: unf)
    next
      case False
      then have rest: "score x' \<le> score x" if "x + 1 \<le> x'" "x' < xEnd" for x'
        using that by (meson not_le)
      with later have "colLoop bgImg sH sliderY xEnd (x + 1) ?t1 = Some ?t1"
        by (intro colLoop_keep) simp_all
      moreover from inwin True rest have "leftmost_best score x xEnd t ?t1"
        by (rule leftmost_best_here)
      ultimately show ?thesis by (simp add: unf)
    qed
  next
    case False
    from inwin sc False
    have unf: "colLoop bgImg sH sliderY xEnd x t = colLoop bgImg sH sliderY xEnd (x + 1) t"
      by (subst colLoop.simps) simp
    from x0 False have "x \<noteq> x0" by auto
    with x0 have "x + 1 \<le> x0 \<and> x0 < xEnd \<and> maxScore t < score x0" by simp
    then have "\<exists>x'. x + 1 \<le> x' \<and> x' < xEnd \<and> maxScore t < score x'" ..
    with later obtain t' where run: "colLoop bgImg sH sliderY xEnd (x + 1) t = Some t'"
      and lb: "leftmost_best score (x + 1) xEnd t t'"
      using "1.IH"(2) [OF inwin sc False] by blast
    from lb have "leftmost_best score x xEnd t t'"
      by (rule leftmost_best_step) (use False in simp_all)
    with run show ?thesis by (simp add: unf)
  qed
qed

subsection \<open>What the scan returns\<close>

lemma findGap_empty_window:
  assumes "\<not> startX sliderImg < endX bgImg sliderImg"
  shows "findGapWithHighAccuracy bgImg sliderImg sliderY = Some 0"
  using assms by (simp add: findGapWithHighAccuracy_def colLoop_exit)

lemma findGap_in_window:
  assumes nonempty: "startX sliderImg < endX bgImg sliderImg"
    and run: "findGapWithHighAccuracy bgImg sliderImg sliderY = Some b"
  shows "startX sliderImg \<le> b \<and> b < endX bgImg sliderImg"
proof -
  let ?t0 = "\<lparr>maxScore = -1, bestX = 0\<rparr>"
  from run obtain t' where scan: "colLoop bgImg (height sliderImg) sliderY
      (endX bgImg sliderImg) (startX sliderImg) ?t0 = Some t'" and b: "b = bestX t'"
    by (auto simp: findGapWithHighAccuracy_def)
  from scan nonempty obtain s
    where sc: "columnScore bgImg (height sliderImg) sliderY (startX sliderImg) = Some s"
    by (subst (asm) colLoop.simps) (auto split: option.splits)
  then have "0 \<le> s" by (rule columnScore_Some_nonneg)
  with scan nonempty sc
  have "colLoop bgImg (height sliderImg) sliderY (endX bgImg sliderImg) (startX sliderImg + 1)
      (?t0\<lparr>maxScore := s, bestX := startX sliderImg\<rparr>) = Some t'"
    by (subst (asm) colLoop.simps) simp
  from colLoop_Some_range [OF this] nonempty show ?thesis by (auto simp: b)
qed

lemma findGap_leftmost_best:
  assumes nonempty: "startX sliderImg < endX bgImg sliderImg"
    and scores: "\<And>x. startX sliderImg \<le> x \<Longrightarrow> x < endX bgImg sliderImg \<Longrightarrow>
      columnScore bgImg (height sliderImg) sliderY x = Some (score x)"
  obtains t' :: tracked where "findGapWithHighAccuracy bgImg sliderImg sliderY = Some (bestX t')"
    and "startX sliderImg \<le> bestX t'" and "bestX t' < endX bgImg sliderImg"
    and "maxScore t' = score (bestX t')"
    and "\<And>x. startX sliderImg \<le> x \<Longrightarrow> x < endX bgImg sliderImg \<Longrightarrow> score x \<le> maxScore t'"
    and "\<And>x. startX sliderImg \<le> x \<Longrightarrow> x < bestX t' \<Longrightarrow> score x < maxScore t'"
proof -
  let ?t0 = "\<lparr>maxScore = -1, bestX = 0\<rparr>"
  from nonempty have "columnScore bgImg (height sliderImg) sliderY (startX sliderImg)
      = Some (score (startX sliderImg))"
    by (intro scores) simp_all
  then have "0 \<le> score (startX sliderImg)" by (rule columnScore_Some_nonneg)
  with nonempty have "startX sliderImg \<le> startX sliderImg \<and>
      startX sliderImg < endX bgImg sliderImg \<and> maxScore ?t0 < score (startX sliderImg)"
    by simp
  then have "\<exists>x'. startX sliderImg \<le> x' \<and> x' < endX bgImg sliderImg \<and> maxScore ?t0 < score x'" ..
  with scores obtain t' where scan: "colLoop bgImg (height sliderImg) sliderY
      (endX bgImg sliderImg) (startX sliderImg) ?t0 = Some t'"
    and lb: "leftmost_best score (startX sliderImg) (endX bgImg sliderImg) ?t0 t'"
    using colLoop_best [of "startX sliderImg" "endX bgImg sliderImg" bgImg "height sliderImg"
        sliderY score ?t0] by blast
  from scan have "findGapWithHighAccuracy bgImg sliderImg sliderY = Some (bestX t')"
    by (simp add: findGapWithHighAccuracy_def)
  with lb show thesis
    unfolding leftmost_best_def by (intro that [of t']) blast+
qed

lemma findGap_all_zero:
  assumes nonempty: "startX sliderImg < endX bgImg sliderImg"
    and zero: "\<And>x. startX sliderImg \<le> x \<Longrightarrow> x < endX bgImg sliderImg \<Longrightarrow>
      columnScore bgImg (height sliderImg) sliderY x = Some 0"
  shows "findGapWithHighAccuracy bgImg sliderImg sliderY = Some (startX sliderImg)"
proof -
  have "\<exists>t' :: tracked. findGapWithHighAccuracy bgImg sliderImg sliderY = Some (bestX t') \<and>
      startX sliderImg \<le> bestX t' \<and> \<not> startX sliderImg < bestX t'"
  proof (rule findGap_leftmost_best [of sliderImg bgImg sliderY "\<lambda>x. 0"])
    show "startX sliderImg < endX bgImg sliderImg" by (rule nonempty)
  next
    fix x
    assume "startX sliderImg \<le> x" and "x < endX bgImg sliderImg"
    then show "columnScore bgImg (height sliderImg) sliderY x = Some 0" by (rule zero)
  next
    fix t' :: tracked
    assume res: "findGapWithHighAccuracy bgImg sliderImg sliderY = Some (bestX t')"
      and lo: "startX sliderImg \<le> bestX t'"
      and mx: "maxScore t' = 0"
      and left: "\<And>x. startX sliderImg \<le> x \<Longrightarrow> x < bestX t' \<Longrightarrow> 0 < maxScore t'"
    have "\<not> startX sliderImg < bestX t'"
    proof
      assume "startX sliderImg < bestX t'"
      then have "0 < maxScore t'" by (intro left [of "startX sliderImg"]) simp_all
      with mx show False by simp
    qed
    with res lo show "\<exists>t' :: tracked.
        findGapWithHighAccuracy bgImg sliderImg sliderY = Some (bestX t') \<and>
        startX sliderImg \<le> bestX t' \<and> \<not> startX sliderImg < bestX t'"
      by blast
  qed
  then show ?thesis by auto
qed

subsection \<open>The pixels the result depends on\<close>

lemma rows_set_clipped:
  fixes sliderY sH h :: int
  assumes "h < sliderY + sH"
  shows "{y. sliderY \<le> y \<and> y < sliderY + sH \<and> y < h} = {sliderY..<h}"
  using assms by auto

lemma bandScore_agree:
  assumes "height bgImg' = height bgImg"
    and "\<And>x' y. x' = x - 1 \<or> x' = x \<Longrightarrow> sliderY \<le> y \<Longrightarrow> y < sliderY + sH \<Longrightarrow>
           y < height bgImg \<Longrightarrow> red bgImg' x' y = red bgImg x' y"
  shows "bandScore bgImg' sH sliderY x = bandScore bgImg sH sliderY x"
  unfolding bandScore_def assms(1)
  by (rule sum.cong) (simp_all add: drop_at_def assms(2))

lemma colLoop_agree:
  assumes "\<And>x'. x \<le> x' \<Longrightarrow> x' < xEnd \<Longrightarrow>
      columnScore bgImg' sH sliderY x' = columnScore bgImg sH sliderY x'"
  shows "colLoop bgImg' sH sliderY xEnd x t = colLoop bgImg sH sliderY xEnd x t"
  using assms
proof (induction bgImg sH sliderY xEnd x t rule: colLoop.induct)
  case (1 bgImg sH sliderY xEnd x t)
  show ?case
  proof (cases "x < xEnd")
    case False
    then show ?thesis by (simp add: colLoop_exit)
  next
    case inwin: True
    then have here: "columnScore bgImg' sH sliderY x = columnScore bgImg sH sliderY x"
      by (intro "1.prems") simp_all
    have later: "columnScore bgImg' sH sliderY x' = columnScore bgImg sH sliderY x'"
      if "x + 1 \<le> x'" "x' < xEnd" for x'
      using that by (intro "1.prems") simp_all
    show ?thesis
    proof (cases "columnScore bgImg sH sliderY x")
      case None
      with inwin here show ?thesis by (subst (1 2) colLoop.simps) simp
    next
      case (Some s)
      show ?thesis
      proof (cases "s > maxScore t")
        case True
        from "1.IH"(1) [OF inwin Some True later] inwin True Some here show ?thesis
          by (subst (1 2) colLoop.simps) simp
      next
        case False
        from "1.IH"(2) [OF inwin Some False later] inwin False Some here show ?thesis
          by (subst (1 2) colLoop.simps) simp
      qed
    qed
  qed
qed

lemma findGap_agree:
  assumes dims: "width bgImg' = width bgImg"
    and scores: "\<And>x. startX sliderImg \<le> x \<Longrightarrow> x < endX bgImg sliderImg \<Longrightarrow>
      columnScore bgImg' (height sliderImg) sliderY x
        = columnScore bgImg (height sliderImg) sliderY x"
  shows "findGapWithHighAccuracy bgImg' sliderImg sliderY
       = findGapWithHighAccuracy bgImg sliderImg sliderY"
proof -
  from scores
  have "colLoop bgImg' (height sliderImg) sliderY (endX bgImg sliderImg) (startX sliderImg) t
      = colLoop bgImg (height sliderImg) sliderY (endX bgImg sliderImg) (startX sliderImg) t" for t
    by (intro colLoop_agree) simp_all
  with dims show ?thesis
    by (simp add: findGapWithHighAccuracy_def endX_def)
qed

text \<open>
  For a slider of non-negative width and a \<open>sliderY\<close> from 0 on, within the bound, every
  pixel the scan reads lies inside the grid: what \<open>red\<close> answers outside
  \<open>[0, W) \<times> [0, H)\<close> never reaches the result.
\<close>

lemma findGap_reads_in_bounds:
  assumes dims: "width bgImg' = width bgImg" "height bgImg' = height bgImg"
    and valid: "0 \<le> sliderY" "sliderY + height sliderImg \<le> 2 ^ 53" "0 \<le> width sliderImg"
    and agree: "\<And>x y. 0 \<le> x \<Longrightarrow> x < width bgImg \<Longrightarrow> 0 \<le> y \<Longrightarrow> y < height bgImg \<Longrightarrow>
           red bgImg' x y = red bgImg x y"
  shows "findGapWithHighAccuracy bgImg' sliderImg sliderY
       = findGapWithHighAccuracy bgImg sliderImg sliderY"
proof (rule findGap_agree [OF dims(1)])
  fix x
  assume win: "startX sliderImg \<le> x" "x < endX bgImg sliderImg"
  from valid have lo: "- (2 ^ 53) \<le> sliderY" by simp
  have "bandScore bgImg' (height sliderImg) sliderY x
      = bandScore bgImg (height sliderImg) sliderY x"
  proof (rule bandScore_agree [OF dims(2)])
    fix x' y
    assume "x' = x - 1 \<or> x' = x" and "sliderY \<le> y" and "y < height bgImg"
    with win valid have "0 \<le> x'" "x' < width bgImg" "0 \<le> y"
      by (auto simp: startX_def endX_def)
    then show "red bgImg' x' y = red bgImg x' y"
      using \<open>y < height bgImg\<close> by (rule agree)
  qed
  with lo valid(2) show "columnScore bgImg' (height sliderImg) sliderY x
      = columnScore bgImg (height sliderImg) sliderY x"
    by (simp add: columnScore_sum)
qed

subsection \<open>Runs on the small images\<close>

lemma flatGrid14_scores:
  "columnScore flatGrid14 (height unitSlider) 0 6 = Some 0"
  "columnScore flatGrid14 (height unitSlider) 0 7 = Some 0"
  by (simp_all add: columnScore_def rowLoop.simps flatGrid14_def unitSlider_def
      jsAdd_def roundDouble_def)

lemma flatGrid14_window:
  "startX unitSlider = 6" "endX flatGrid14 unitSlider = 8"
  by (simp_all add: startX_def endX_def flatGrid14_def unitSlider_def)

lemma flatGrid14_all_zero:
  "\<forall>x. startX unitSlider \<le> x \<and> x < endX flatGrid14 unitSlider \<longrightarrow>
       columnScore flatGrid14 (height unitSlider) 0 x = Some 0"
proof (intro allI impI)
  fix x :: int
  assume "startX unitSlider \<le> x \<and> x < endX flatGrid14 unitSlider"
  then have "x = 6 \<or> x = 7" by (simp add: flatGrid14_window) arith
  with flatGrid14_scores show "columnScore flatGrid14 (height unitSlider) 0 x = Some 0" by auto
qed

lemma stepGrid_run: "findGapWithHighAccuracy stepGrid unitSlider 0 = Some 7"
  by (simp add: findGapWithHighAccuracy_def startX_def endX_def columnScore_def
      stepGrid_def unitSlider_def rowLoop.simps colLoop.simps jsAdd_def roundDouble_def)

lemma tieGrid_scores:
  "columnScore tieGrid (height unitSlider) 0 6 = Some 100"
  "columnScore tieGrid (height unitSlider) 0 7 = Some 100"
  "columnScore tieGrid (height unitSlider) 0 8 = Some 0"
  by (simp_all add: columnScore_def rowLoop.simps tieGrid_def unitSlider_def
      jsAdd_def roundDouble_def)

text \<open>
  Below \<open>-2^53\<close> the loop can pass over a row: from \<open>sliderY = -(2^53 + 2)\<close> a band of
  three rows is scanned at \<open>-(2^53 + 2)\<close> and \<open>-2^53\<close> only, since \<open>y++\<close> rounds
  \<open>-(2^53 + 1)\<close> to \<open>-2^53\<close>, and the stepped grid's column 7 scores two drops of 140
  where the band has three rows.
\<close>

lemma skipped_row_run:
  "jsAdd (- (2 ^ 53) - 2) 1 = - (2 ^ 53)"
  "columnScore stepGrid (height tallSlider) (- (2 ^ 53) - 2) 7 = Some 280"
  by (simp_all add: columnScore_def rowLoop.simps stepGrid_def tallSlider_def
      jsAdd_def roundDouble_def binade.simps Let_def)

subsection \<open>The handler\<close>

text \<open>A request that passes the four guards is answered by the call of line 84.\<close>

lemma handler_invokes_core:
  assumes "httpMethod req = ''POST''" and "json req = Inr v" and "v \<noteq> Null"
    and "\<not> falsy (getProp v ''bgBase64'')" and "\<not> falsy (getProp v ''sliderBase64'')"
    and "\<not> falsy (getProp v ''sliderY'')"
  shows "handler core req =
     (case core (getProp v ''bgBase64'') (getProp v ''sliderBase64'') (getProp v ''sliderY'') of
        Inl e \<Rightarrow> Inl e | Inr x \<Rightarrow> Inr \<lparr>body = JsonX x, status = 200\<rparr>)"
  using assms by (simp add: handler_def Let_def)

section \<open>The claims\<close>

text \<open>
  Claim C1, as stated: whenever the search window is empty, or it is not empty and every
  candidate column scores 0, the function returns 0. The second half fails. On a flat
  grid 13 wide and one row high with a slider of width 1 and \<open>sliderY = 0\<close>, the window
  is the single column 6, its score is 0, and the function returns 6: the tracked
  maximum starts at \<open>-1\<close>, so the first column's score of 0 already exceeds it.
\<close>

theorem C1_all_zero_counterexample:
  "startX unitSlider = 6 \<and> endX flatGrid unitSlider = 7 \<and>
   columnScore flatGrid (height unitSlider) 0 6 = Some 0 \<and>
   findGapWithHighAccuracy flatGrid unitSlider 0 = Some 6 \<and>
   findGapWithHighAccuracy flatGrid unitSlider 0 \<noteq> Some 0"
  by (simp add: findGapWithHighAccuracy_def startX_def endX_def columnScore_def
      flatGrid_def unitSlider_def rowLoop.simps colLoop.simps jsAdd_def roundDouble_def)

text \<open>
  Claim C1, amended. When the search window is empty the function returns 0. When the
  window is not empty, \<open>-2^53 \<le> sliderY\<close>, \<open>sliderY + sliderHeight \<le> 2^53\<close> and every
  candidate column scores 0, it returns the first column of the window,
  \<open>sliderWidth + 5\<close>. In both cases the call returns (the value is \<open>Some\<close>), and the scan
  has no raising statement.
\<close>

theorem C1_degenerate_windows:
  "(\<not> startX sliderImg < endX bgImg sliderImg \<longrightarrow>
      findGapWithHighAccuracy bgImg sliderImg sliderY = Some 0) \<and>
   (startX sliderImg < endX bgImg sliderImg \<and>
    - (2 ^ 53) \<le> sliderY \<and> sliderY + height sliderImg \<le> 2 ^ 53 \<and>
    (\<forall>x. startX sliderImg \<le> x \<and> x < endX bgImg sliderImg \<longrightarrow>
       columnScore bgImg (height sliderImg) sliderY x = Some 0) \<longrightarrow>
      findGapWithHighAccuracy bgImg sliderImg sliderY = Some (width sliderImg + 5))"
proof (intro conjI impI)
  assume "\<not> startX sliderImg < endX bgImg sliderImg"
  then show "findGapWithHighAccuracy bgImg sliderImg sliderY = Some 0"
    by (rule findGap_empty_window)
next
  assume zero: "startX sliderImg < endX bgImg sliderImg \<and>
    - (2 ^ 53) \<le> sliderY \<and> sliderY + height sliderImg \<le> 2 ^ 53 \<and>
    (\<forall>x. startX sliderImg \<le> x \<and> x < endX bgImg sliderImg \<longrightarrow>
       columnScore bgImg (height sliderImg) sliderY x = Some 0)"
  then have "findGapWithHighAccuracy bgImg sliderImg sliderY = Some (startX sliderImg)"
    by (intro findGap_all_zero) simp_all
  then show "findGapWithHighAccuracy bgImg sliderImg sliderY = Some (width sliderImg + 5)"
    by (simp add: startX_def)
qed

theorem C1_degenerate_windows_witness:
  "\<not> startX scenarioSlider < endX flatGrid scenarioSlider \<and>
   findGapWithHighAccuracy flatGrid scenarioSlider 0 = Some 0 \<and>
   startX unitSlider < endX flatGrid14 unitSlider \<and>
   - (2 ^ 53) \<le> (0 :: int) \<and> 0 + height unitSlider \<le> 2 ^ 53 \<and>
   columnScore flatGrid14 (height unitSlider) 0 6 = Some 0 \<and>
   columnScore flatGrid14 (height unitSlider) 0 7 = Some 0 \<and>
   findGapWithHighAccuracy flatGrid14 unitSlider 0 = Some 6"
proof -
  have empty: "\<not> startX scenarioSlider < endX flatGrid scenarioSlider"
    and w: "width unitSlider + 5 = 6"
    and bound: "- (2 ^ 53) \<le> (0 :: int)" "0 + height unitSlider \<le> 2 ^ 53"
    by (simp_all add: startX_def endX_def flatGrid_def unitSlider_def scenarioSlider_def)
  have win: "startX unitSlider < endX flatGrid14 unitSlider" by (simp add: flatGrid14_window)
  from C1_degenerate_windows [of unitSlider flatGrid14 0] win bound flatGrid14_all_zero
  have "findGapWithHighAccuracy flatGrid14 unitSlider 0 = Some (width unitSlider + 5)"
    by blast
  then have first: "findGapWithHighAccuracy flatGrid14 unitSlider 0 = Some 6"
    by (simp only: w)
  from C1_degenerate_windows [of scenarioSlider flatGrid 0] empty
  have "findGapWithHighAccuracy flatGrid scenarioSlider 0 = Some 0"
    by blast
  with first win bound flatGrid14_scores empty show ?thesis by blast
qed

text \<open>
  Claim C2. When the search window \<open>[sliderWidth + 5, W - sliderWidth - 5)\<close> is not empty,
  a column that the function returns lies in it, for every \<open>sliderY\<close>; under
  \<open>-2^53 \<le> sliderY\<close> and \<open>sliderY + sliderHeight \<le> 2^53\<close> the function does return one.
  When the window is empty the function returns 0.
\<close>

theorem C2_window_containment:
  "(startX sliderImg < endX bgImg sliderImg \<longrightarrow>
      (\<forall>b. findGapWithHighAccuracy bgImg sliderImg sliderY = Some b \<longrightarrow>
         startX sliderImg \<le> b \<and> b < endX bgImg sliderImg)) \<and>
   (startX sliderImg < endX bgImg sliderImg \<and>
    - (2 ^ 53) \<le> sliderY \<and> sliderY + height sliderImg \<le> 2 ^ 53 \<longrightarrow>
      (\<exists>b. findGapWithHighAccuracy bgImg sliderImg sliderY = Some b \<and>
         startX sliderImg \<le> b \<and> b < endX bgImg sliderImg)) \<and>
   (\<not> startX sliderImg < endX bgImg sliderImg \<longrightarrow>
      findGapWithHighAccuracy bgImg sliderImg sliderY = Some 0)"
proof (intro conjI impI allI)
  fix b
  assume "startX sliderImg < endX bgImg sliderImg"
    and "findGapWithHighAccuracy bgImg sliderImg sliderY = Some b"
  then have "startX sliderImg \<le> b \<and> b < endX bgImg sliderImg" by (rule findGap_in_window)
  then show "startX sliderImg \<le> b" and "b < endX bgImg sliderImg" by simp_all
next
  assume safe: "startX sliderImg < endX bgImg sliderImg \<and>
    - (2 ^ 53) \<le> sliderY \<and> sliderY + height sliderImg \<le> 2 ^ 53"
  then have nonempty: "startX sliderImg < endX bgImg sliderImg" by simp
  from safe have "columnScore bgImg (height sliderImg) sliderY x
      = Some (bandScore bgImg (height sliderImg) sliderY x)" for x
    by (intro columnScore_sum) simp_all
  with nonempty obtain t' :: tracked
    where "findGapWithHighAccuracy bgImg sliderImg sliderY = Some (bestX t')"
      and "startX sliderImg \<le> bestX t'" and "bestX t' < endX bgImg sliderImg"
    by (rule findGap_leftmost_best
        [of sliderImg bgImg sliderY "bandScore bgImg (height sliderImg) sliderY"])
  then show "\<exists>b. findGapWithHighAccuracy bgImg sliderImg sliderY = Some b \<and>
         startX sliderImg \<le> b \<and> b < endX bgImg sliderImg"
    by blast
next
  assume "\<not> startX sliderImg < endX bgImg sliderImg"
  then show "findGapWithHighAccuracy bgImg sliderImg sliderY = Some 0"
    by (rule findGap_empty_window)
qed

theorem C2_window_containment_witness:
  "startX unitSlider < endX stepGrid unitSlider \<and>
   - (2 ^ 53) \<le> (0 :: int) \<and> 0 + height unitSlider \<le> 2 ^ 53 \<and>
   findGapWithHighAccuracy stepGrid unitSlider 0 = Some 7 \<and>
   startX unitSlider \<le> 7 \<and> 7 < endX stepGrid unitSlider \<and>
   (\<exists>b. findGapWithHighAccuracy stepGrid unitSlider 0 = Some b \<and>
      startX unitSlider \<le> b \<and> b < endX stepGrid unitSlider) \<and>
   \<not> startX scenarioSlider < endX stepGrid scenarioSlider \<and>
   findGapWithHighAccuracy stepGrid scenarioSlider 0 = Some 0"
proof -
  have win: "startX unitSlider < endX stepGrid unitSlider"
    and bound: "- (2 ^ 53) \<le> (0 :: int)" "0 + height unitSlider \<le> 2 ^ 53"
    and empty: "\<not> startX scenarioSlider < endX stepGrid scenarioSlider"
    by (simp_all add: startX_def endX_def unitSlider_def stepGrid_def scenarioSlider_def)
  note th = C2_window_containment [of unitSlider stepGrid 0]
  from th win stepGrid_run
  have inside: "startX unitSlider \<le> 7 \<and> 7 < endX stepGrid unitSlider" by blast
  from th win bound
  have returns: "\<exists>b. findGapWithHighAccuracy stepGrid unitSlider 0 = Some b \<and>
      startX unitSlider \<le> b \<and> b < endX stepGrid unitSlider" by blast
  from C2_window_containment [of scenarioSlider stepGrid 0] empty
  have "findGapWithHighAccuracy stepGrid scenarioSlider 0 = Some 0" by blast
  with win bound stepGrid_run inside returns empty show ?thesis by blast
qed

text \<open>
  Claim C3. Under \<open>-2^53 \<le> sliderY\<close> and \<open>sliderY + sliderHeight \<le> 2^53\<close>: when the window
  is not empty and some column's score exceeds the initial tracked maximum \<open>-1\<close>, the
  function returns a column of the window, no column of the window scores more, and
  every window column to its left scores strictly less. It is the leftmost column
  attaining the maximum, ties keeping the earliest one.
\<close>

theorem C3_leftmost_maximum:
  assumes "startX sliderImg < endX bgImg sliderImg"
    and "- (2 ^ 53) \<le> sliderY" and "sliderY + height sliderImg \<le> 2 ^ 53"
    and "\<exists>x s. startX sliderImg \<le> x \<and> x < endX bgImg sliderImg \<and>
           columnScore bgImg (height sliderImg) sliderY x = Some s \<and> -1 < s"
  shows "\<exists>b sb. findGapWithHighAccuracy bgImg sliderImg sliderY = Some b \<and>
     startX sliderImg \<le> b \<and> b < endX bgImg sliderImg \<and>
     columnScore bgImg (height sliderImg) sliderY b = Some sb \<and>
     (\<forall>x. startX sliderImg \<le> x \<and> x < endX bgImg sliderImg \<longrightarrow>
        (\<exists>s. columnScore bgImg (height sliderImg) sliderY x = Some s \<and> s \<le> sb)) \<and>
     (\<forall>x. startX sliderImg \<le> x \<and> x < b \<longrightarrow>
        (\<exists>s. columnScore bgImg (height sliderImg) sliderY x = Some s \<and> s < sb))"
proof -
  let ?score = "bandScore bgImg (height sliderImg) sliderY"
  from assms(2,3) have sc: "columnScore bgImg (height sliderImg) sliderY x = Some (?score x)" for x
    by (rule columnScore_sum)
  with assms(1) obtain t' :: tracked
    where res: "findGapWithHighAccuracy bgImg sliderImg sliderY = Some (bestX t')"
    and lo: "startX sliderImg \<le> bestX t'" and hi: "bestX t' < endX bgImg sliderImg"
    and mx: "maxScore t' = ?score (bestX t')"
    and all: "\<And>x. startX sliderImg \<le> x \<Longrightarrow> x < endX bgImg sliderImg \<Longrightarrow> ?score x \<le> maxScore t'"
    and left: "\<And>x. startX sliderImg \<le> x \<Longrightarrow> x < bestX t' \<Longrightarrow> ?score x < maxScore t'"
    by (rule findGap_leftmost_best [of sliderImg bgImg sliderY ?score]) blast
  have "\<forall>x. startX sliderImg \<le> x \<and> x < endX bgImg sliderImg \<longrightarrow>
      (\<exists>s. columnScore bgImg (height sliderImg) sliderY x = Some s \<and> s \<le> ?score (bestX t'))"
    using all by (simp add: sc mx)
  moreover have "\<forall>x. startX sliderImg \<le> x \<and> x < bestX t' \<longrightarrow>
      (\<exists>s. columnScore bgImg (height sliderImg) sliderY x = Some s \<and> s < ?score (bestX t'))"
    using left by (simp add: sc mx)
  ultimately show ?thesis using res lo hi sc [of "bestX t'"] by blast
qed

theorem C3_leftmost_maximum_witness:
  "startX unitSlider < endX tieGrid unitSlider \<and>
   - (2 ^ 53) \<le> (0 :: int) \<and> 0 + height unitSlider \<le> 2 ^ 53 \<and>
   startX unitSlider \<le> 7 \<and> 7 < endX tieGrid unitSlider \<and>
   columnScore tieGrid (height unitSlider) 0 7 = Some 100 \<and> (-1 :: int) < 100 \<and>
   columnScore tieGrid (height unitSlider) 0 6 = Some 100 \<and>
   columnScore tieGrid (height unitSlider) 0 8 = Some 0 \<and>
   findGapWithHighAccuracy tieGrid unitSlider 0 = Some 6"
proof -
  have s: "startX unitSlider = 6" and e: "endX tieGrid unitSlider = 9"
    and bound: "- (2 ^ 53) \<le> (0 :: int)" "0 + height unitSlider \<le> 2 ^ 53"
    by (simp_all add: startX_def endX_def unitSlider_def tieGrid_def)
  have win: "startX unitSlider < endX tieGrid unitSlider" by (simp add: s e)
  have "startX unitSlider \<le> 7 \<and> 7 < endX tieGrid unitSlider \<and>
      columnScore tieGrid (height unitSlider) 0 7 = Some 100 \<and> (-1 :: int) < 100"
    by (simp add: s e tieGrid_scores)
  then have "\<exists>x s. startX unitSlider \<le> x \<and> x < endX tieGrid unitSlider \<and>
      columnScore tieGrid (height unitSlider) 0 x = Some s \<and> -1 < s"
    by blast
  from C3_leftmost_maximum [OF win bound this]
  obtain b sb where res: "findGapWithHighAccuracy tieGrid unitSlider 0 = Some b"
    and lo: "6 \<le> b" and hi: "b < 9"
    and sb: "columnScore tieGrid (height unitSlider) 0 b = Some sb"
    and all: "\<And>x. 6 \<le> x \<Longrightarrow> x < 9 \<Longrightarrow>
        \<exists>s. columnScore tieGrid (height unitSlider) 0 x = Some s \<and> s \<le> sb"
    and left: "\<And>x. 6 \<le> x \<Longrightarrow> x < b \<Longrightarrow>
        \<exists>s. columnScore tieGrid (height unitSlider) 0 x = Some s \<and> s < sb"
    unfolding s e by blast
  from lo hi have "b = 6 \<or> b = 7 \<or> b = 8" by arith
  moreover have "b \<noteq> 8"
  proof
    assume "b = 8"
    with sb tieGrid_scores(3) have "sb = 0" by simp
    with all [of 6] tieGrid_scores(1) show False by simp
  qed
  moreover have "b \<noteq> 7"
  proof
    assume "b = 7"
    with sb tieGrid_scores(2) have "sb = 100" by simp
    with left [of 6] tieGrid_scores(1) \<open>b = 7\<close> show False by simp
  qed
  ultimately have "b = 6" by simp
  with res have "findGapWithHighAccuracy tieGrid unitSlider 0 = Some 6" by simp
  with win bound s e tieGrid_scores show ?thesis by simp
qed

text \<open>
  Claim C4. Under \<open>-2^53 \<le> sliderY\<close> and \<open>sliderY + sliderHeight \<le> 2^53\<close>, the score of a
  column \<open>x\<close> is the sum, over the rows \<open>y\<close> of the band
  \<open>sliderY \<le> y < sliderY + sliderHeight\<close> that are below the grid's height, of the
  brightness drop \<open>intensity (x - 1, y) - intensity (x, y)\<close> where that drop exceeds 15;
  a row whose drop is at most 15 adds nothing. This holds for every column, so for every
  candidate column of the window.
\<close>

theorem C4_column_score_is_thresholded_sum:
  assumes "- (2 ^ 53) \<le> sliderY" and "sliderY + height sliderImg \<le> 2 ^ 53"
  shows "columnScore bgImg (height sliderImg) sliderY x =
     Some (\<Sum>y | sliderY \<le> y \<and> y < sliderY + height sliderImg \<and> y < height bgImg.
             if red bgImg (x - 1) y - red bgImg x y > 15
             then red bgImg (x - 1) y - red bgImg x y else 0)"
proof -
  have "columnScore bgImg (height sliderImg) sliderY x
      = rowLoop bgImg (height sliderImg) sliderY x sliderY 0"
    by (simp only: columnScore_def)
  also from assms
  have "\<dots> = Some (0 + (\<Sum>y | sliderY \<le> y \<and> y < sliderY + height sliderImg \<and> y < height bgImg.
      drop_at bgImg x y))"
    by (intro rowLoop_sum) simp_all
  also have "\<dots> = Some (\<Sum>y | sliderY \<le> y \<and> y < sliderY + height sliderImg \<and> y < height bgImg.
        if red bgImg (x - 1) y - red bgImg x y > 15
        then red bgImg (x - 1) y - red bgImg x y else 0)"
    by (simp add: drop_at_def Let_def)
  finally show ?thesis .
qed

theorem C4_column_score_is_thresholded_sum_witness:
  "- (2 ^ 53) \<le> (0 :: int) \<and> 0 + height tallSlider \<le> 2 ^ 53 \<and>
   columnScore stepGrid (height tallSlider) 0 7 = Some 280"
proof -
  have bound: "- (2 ^ 53) \<le> (0 :: int)" "0 + height tallSlider \<le> 2 ^ 53"
    by (simp_all add: tallSlider_def)
  have rows: "{y. 0 \<le> y \<and> y < 0 + height tallSlider \<and> y < height stepGrid} = {0..<2}"
    by (auto simp: tallSlider_def stepGrid_def)
  have "columnScore stepGrid (height tallSlider) 0 7 =
     Some (\<Sum>y | 0 \<le> y \<and> y < 0 + height tallSlider \<and> y < height stepGrid.
             if red stepGrid (7 - 1) y - red stepGrid 7 y > 15
             then red stepGrid (7 - 1) y - red stepGrid 7 y else 0)"
    by (rule C4_column_score_is_thresholded_sum [OF bound])
  also have "\<dots> = Some 280"
    unfolding rows by (simp add: stepGrid_def)
  finally show ?thesis using bound by simp
qed

text \<open>
  Claim C5, as stated: whenever \<open>sliderY + sliderHeight > H\<close> the call completes. It does
  not at \<open>sliderY = 2^53\<close>, on the flat grid 13 wide and one row high with a slider one
  wide and three high. The window is the column 6; the band ends at the double
  \<open>2^53 + 4\<close>; the row \<open>2^53\<close> is skipped as being beyond the grid, and \<open>y++\<close> leaves \<open>y\<close>
  at \<open>2^53\<close>: the inner loop never ends and the call returns nothing.
\<close>

theorem C5_stalled_scan_counterexample:
  "height flatGrid < 2 ^ 53 + height tallSlider \<and>
   startX tallSlider < endX flatGrid tallSlider \<and>
   columnScore flatGrid (height tallSlider) (2 ^ 53) 6 = None \<and>
   findGapWithHighAccuracy flatGrid tallSlider (2 ^ 53) = None"
proof -
  have "rowLoop flatGrid (height tallSlider) (2 ^ 53) 6 (2 ^ 53) 0 = None"
    by (rule rowLoop_stalls)
      (simp_all add: flatGrid_def tallSlider_def jsAdd_def roundDouble_def binade.simps Let_def)
  then have score: "columnScore flatGrid (height tallSlider) (2 ^ 53) 6 = None"
    by (simp add: columnScore_def)
  then have "findGapWithHighAccuracy flatGrid tallSlider (2 ^ 53) = None"
    by (simp add: findGapWithHighAccuracy_def startX_def endX_def flatGrid_def tallSlider_def
        colLoop.simps)
  with score show ?thesis
    by (simp add: startX_def endX_def flatGrid_def tallSlider_def)
qed

text \<open>
  Claim C5, amended. When the band reaches beyond the grid,
  \<open>sliderY + sliderHeight > H\<close>, with \<open>-2^53 \<le> sliderY\<close> and
  \<open>sliderY + sliderHeight \<le> 2^53\<close>, the call returns a column. Every column's score is
  then the sum over the rows from \<open>sliderY\<close> up to \<open>H - 1\<close> only, and the brightness
  stored for rows at or beyond \<open>H\<close> has no influence on the result.
\<close>

theorem C5_rows_beyond_height_skipped:
  assumes "sliderY + height sliderImg > height bgImg"
    and "- (2 ^ 53) \<le> sliderY" and "sliderY + height sliderImg \<le> 2 ^ 53"
  shows "(\<exists>b. findGapWithHighAccuracy bgImg sliderImg sliderY = Some b) \<and>
         (\<forall>x. columnScore bgImg (height sliderImg) sliderY x =
            Some (\<Sum>y = sliderY..<height bgImg.
                    if red bgImg (x - 1) y - red bgImg x y > 15
                    then red bgImg (x - 1) y - red bgImg x y else 0)) \<and>
         (\<forall>bgImg'. width bgImg' = width bgImg \<and> height bgImg' = height bgImg \<and>
              (\<forall>x y. y < height bgImg \<longrightarrow> red bgImg' x y = red bgImg x y) \<longrightarrow>
            findGapWithHighAccuracy bgImg' sliderImg sliderY
              = findGapWithHighAccuracy bgImg sliderImg sliderY)"
proof (intro conjI allI impI)
  have sc: "columnScore bgImg (height sliderImg) sliderY x
      = Some (bandScore bgImg (height sliderImg) sliderY x)" for x
    using assms(2,3) by (rule columnScore_sum)
  show "\<exists>b. findGapWithHighAccuracy bgImg sliderImg sliderY = Some b"
  proof (cases "startX sliderImg < endX bgImg sliderImg")
    case True
    from True sc obtain t' :: tracked
      where "findGapWithHighAccuracy bgImg sliderImg sliderY = Some (bestX t')"
      by (rule findGap_leftmost_best
          [of sliderImg bgImg sliderY "bandScore bgImg (height sliderImg) sliderY"]) blast
    then show ?thesis ..
  next
    case False
    then have "findGapWithHighAccuracy bgImg sliderImg sliderY = Some 0"
      by (rule findGap_empty_window)
    then show ?thesis ..
  qed
next
  fix x
  from assms show "columnScore bgImg (height sliderImg) sliderY x =
            Some (\<Sum>y = sliderY..<height bgImg.
                    if red bgImg (x - 1) y - red bgImg x y > 15
                    then red bgImg (x - 1) y - red bgImg x y else 0)"
    by (simp add: columnScore_sum bandScore_def rows_set_clipped drop_at_def Let_def)
next
  fix bgImg' :: image
  assume same: "width bgImg' = width bgImg \<and> height bgImg' = height bgImg \<and>
              (\<forall>x y. y < height bgImg \<longrightarrow> red bgImg' x y = red bgImg x y)"
  then have "bandScore bgImg' (height sliderImg) sliderY x
      = bandScore bgImg (height sliderImg) sliderY x" for x
    by (intro bandScore_agree) simp_all
  with assms(2,3) have "columnScore bgImg' (height sliderImg) sliderY x
      = columnScore bgImg (height sliderImg) sliderY x" for x
    by (simp add: columnScore_sum)
  with same show "findGapWithHighAccuracy bgImg' sliderImg sliderY
      = findGapWithHighAccuracy bgImg sliderImg sliderY"
    by (intro findGap_agree) simp_all
qed

theorem C5_rows_beyond_height_skipped_witness:
  "0 + height tallSlider > height stepGrid \<and>
   - (2 ^ 53) \<le> (0 :: int) \<and> 0 + height tallSlider \<le> 2 ^ 53 \<and>
   (\<exists>b. findGapWithHighAccuracy stepGrid tallSlider 0 = Some b) \<and>
   columnScore stepGrid (height tallSlider) 0 7 = Some 280 \<and>
   findGapWithHighAccuracy shadedGrid tallSlider 0 = findGapWithHighAccuracy stepGrid tallSlider 0"
proof -
  have band: "0 + height tallSlider > height stepGrid"
    and bound: "- (2 ^ 53) \<le> (0 :: int)" "0 + height tallSlider \<le> 2 ^ 53"
    by (simp_all add: tallSlider_def stepGrid_def)
  note th = C5_rows_beyond_height_skipped [OF band bound]
  from th have returns: "\<exists>b. findGapWithHighAccuracy stepGrid tallSlider 0 = Some b"
    by (rule conjunct1)
  from th have "columnScore stepGrid (height tallSlider) 0 7 =
            Some (\<Sum>y = 0..<height stepGrid.
               if red stepGrid (7 - 1) y - red stepGrid 7 y > 15
               then red stepGrid (7 - 1) y - red stepGrid 7 y else 0)"
    by blast
  also have "\<dots> = Some 280"
    by (simp add: stepGrid_def)
  finally have score: "columnScore stepGrid (height tallSlider) 0 7 = Some 280" .
  have "width shadedGrid = width stepGrid \<and> height shadedGrid = height stepGrid \<and>
      (\<forall>x y. y < height stepGrid \<longrightarrow> red shadedGrid x y = red stepGrid x y)"
    by (simp add: shadedGrid_def stepGrid_def)
  with th have "findGapWithHighAccuracy shadedGrid tallSlider 0
      = findGapWithHighAccuracy stepGrid tallSlider 0"
    by blast
  with band bound returns score show ?thesis by blast
qed

text \<open>
  Claim C6. On the 100 by 50 grid of brightness 200 whose columns 60 to 79 have
  brightness 60, with a slider piece 20 wide and 50 high at \<open>sliderY = 0\<close>, the function
  returns 60.
\<close>

theorem C6_scenario_returns_60:
  "findGapWithHighAccuracy scenarioGrid scenarioSlider 0 = Some 60"
  by (simp add: findGapWithHighAccuracy_def startX_def endX_def columnScore_def
      scenarioGrid_def scenarioSlider_def rowLoop.simps colLoop.simps jsAdd_exact)

text \<open>
  Claim C7. With one more pixel of brightness 0 at column 30, row 10, the function still
  returns 60: column 60 scores 50 rows of 140, column 30 the single drop of 200.
\<close>

theorem C7_noise_speck_does_not_win:
  "findGapWithHighAccuracy noisyGrid scenarioSlider 0 = Some 60 \<and>
   columnScore noisyGrid (height scenarioSlider) 0 60 = Some (50 * 140) \<and>
   columnScore noisyGrid (height scenarioSlider) 0 30 = Some 200"
proof (intro conjI)
  show "findGapWithHighAccuracy noisyGrid scenarioSlider 0 = Some 60"
    by (simp add: findGapWithHighAccuracy_def startX_def endX_def columnScore_def
      noisyGrid_def scenarioSlider_def rowLoop.simps colLoop.simps jsAdd_exact)
  show "columnScore noisyGrid (height scenarioSlider) 0 60 = Some (50 * 140)"
    by (simp add: columnScore_def noisyGrid_def scenarioSlider_def rowLoop.simps jsAdd_exact)
  show "columnScore noisyGrid (height scenarioSlider) 0 30 = Some 200"
    by (simp add: columnScore_def noisyGrid_def scenarioSlider_def rowLoop.simps jsAdd_exact)
qed

text \<open>
  Claim C9. Under \<open>-2^53 \<le> sliderY\<close> and \<open>sliderY + sliderHeight \<le> 2^53\<close>: when the window
  is not empty and every candidate column scores 0, the function returns the first
  scanned column \<open>sliderWidth + 5\<close>, which is not 0 for a slider of non-negative width.
\<close>

theorem C9_all_zero_returns_first_column:
  assumes "startX sliderImg < endX bgImg sliderImg"
    and "- (2 ^ 53) \<le> sliderY" and "sliderY + height sliderImg \<le> 2 ^ 53"
    and "\<forall>x. startX sliderImg \<le> x \<and> x < endX bgImg sliderImg \<longrightarrow>
           columnScore bgImg (height sliderImg) sliderY x = Some 0"
  shows "findGapWithHighAccuracy bgImg sliderImg sliderY = Some (width sliderImg + 5) \<and>
         (0 \<le> width sliderImg \<longrightarrow> findGapWithHighAccuracy bgImg sliderImg sliderY \<noteq> Some 0)"
proof -
  from assms(1,4) have "findGapWithHighAccuracy bgImg sliderImg sliderY = Some (startX sliderImg)"
    by (intro findGap_all_zero) simp_all
  then show ?thesis by (simp add: startX_def)
qed

theorem C9_all_zero_returns_first_column_witness:
  "startX unitSlider < endX flatGrid14 unitSlider \<and>
   - (2 ^ 53) \<le> (0 :: int) \<and> 0 + height unitSlider \<le> 2 ^ 53 \<and>
   columnScore flatGrid14 (height unitSlider) 0 6 = Some 0 \<and>
   columnScore flatGrid14 (height unitSlider) 0 7 = Some 0 \<and>
   0 \<le> width unitSlider \<and>
   findGapWithHighAccuracy flatGrid14 unitSlider 0 = Some 6 \<and>
   findGapWithHighAccuracy flatGrid14 unitSlider 0 \<noteq> Some 0"
proof -
  have w: "width unitSlider = 1"
    and bound: "- (2 ^ 53) \<le> (0 :: int)" "0 + height unitSlider \<le> 2 ^ 53"
    by (simp_all add: unitSlider_def)
  have win: "startX unitSlider < endX flatGrid14 unitSlider" by (simp add: flatGrid14_window)
  from C9_all_zero_returns_first_column [OF win bound flatGrid14_all_zero] w
  have "findGapWithHighAccuracy flatGrid14 unitSlider 0 = Some 6"
    and "findGapWithHighAccuracy flatGrid14 unitSlider 0 \<noteq> Some 0"
    by simp_all
  with win bound w flatGrid14_scores show ?thesis by simp
qed

text \<open>
  Claim C10, as stated: every request whose \<open>sliderY\<close> is falsy is answered with the 400
  response \<open>Missing Parameter `sliderY`\<close>. The guards of lines 76, 80 and 81 come first:
  a \<open>GET\<close> request with \<open>sliderY = 0\<close> is answered 405, and a \<open>POST\<close> request with
  \<open>sliderY = 0\<close> and no \<open>bgBase64\<close> is answered with the 400 response for \<open>bgBase64\<close>.
\<close>

theorem C10_falsy_sliderY_counterexample:
  "falsy (getProp zeroYBody ''sliderY'') \<and>
   handler constCore \<lparr>httpMethod = ''GET'', json = Inr zeroYBody\<rparr>
     = Inr \<lparr>body = Text ''Method Not Allowed'', status = 405\<rparr> \<and>
   falsy (getProp noBgBody ''sliderY'') \<and>
   handler constCore \<lparr>httpMethod = ''POST'', json = Inr noBgBody\<rparr>
     = Inr \<lparr>body = Text ''Missing Parameter `bgBase64`'', status = 400\<rparr>"
  by (simp add: handler_def zeroYBody_def noBgBody_def)

text \<open>
  Claim C10, amended. A request whose parsed body has a falsy \<open>sliderY\<close> (the number 0
  included) is answered without the call of line 84: the handler's result is the same
  whatever that call would do. When moreover the method is \<open>POST\<close>, the body is not \<open>null\<close>
  and \<open>bgBase64\<close> and \<open>sliderBase64\<close> are truthy, the answer is the 400 response
  \<open>Missing Parameter `sliderY`\<close>.
\<close>

theorem C10_falsy_sliderY_rejected:
  assumes "json req = Inr v" and "falsy (getProp v ''sliderY'')"
  shows "handler core req = handler core' req \<and>
     (httpMethod req = ''POST'' \<and> v \<noteq> Null \<and> \<not> falsy (getProp v ''bgBase64'') \<and>
      \<not> falsy (getProp v ''sliderBase64'') \<longrightarrow>
        handler core req = Inr \<lparr>body = Text ''Missing Parameter `sliderY`'', status = 400\<rparr>)"
  using assms by (simp add: handler_def Let_def)

theorem C10_falsy_sliderY_rejected_witness:
  "json \<lparr>httpMethod = ''POST'', json = Inr zeroYBody\<rparr> = Inr zeroYBody \<and>
   falsy (getProp zeroYBody ''sliderY'') \<and>
   httpMethod \<lparr>httpMethod = ''POST'', json = Inr zeroYBody\<rparr> = ''POST'' \<and>
   zeroYBody \<noteq> Null \<and> \<not> falsy (getProp zeroYBody ''bgBase64'') \<and>
   \<not> falsy (getProp zeroYBody ''sliderBase64'') \<and>
   handler constCore \<lparr>httpMethod = ''POST'', json = Inr zeroYBody\<rparr>
     = handler failingCore \<lparr>httpMethod = ''POST'', json = Inr zeroYBody\<rparr> \<and>
   handler constCore \<lparr>httpMethod = ''POST'', json = Inr zeroYBody\<rparr>
     = Inr \<lparr>body = Text ''Missing Parameter `sliderY`'', status = 400\<rparr>"
proof -
  have j: "json \<lparr>httpMethod = ''POST'', json = Inr zeroYBody\<rparr> = Inr zeroYBody" by simp
  have f: "falsy (getProp zeroYBody ''sliderY'')" by (simp add: zeroYBody_def)
  have rest: "httpMethod \<lparr>httpMethod = ''POST'', json = Inr zeroYBody\<rparr> = ''POST'' \<and>
   zeroYBody \<noteq> Null \<and> \<not> falsy (getProp zeroYBody ''bgBase64'') \<and>
   \<not> falsy (getProp zeroYBody ''sliderBase64'')" by (simp add: zeroYBody_def)
  note th = C10_falsy_sliderY_rejected [OF j f, of constCore failingCore]
  from th have same: "handler constCore \<lparr>httpMethod = ''POST'', json = Inr zeroYBody\<rparr>
     = handler failingCore \<lparr>httpMethod = ''POST'', json = Inr zeroYBody\<rparr>"
    by (rule conjunct1)
  from th rest have "handler constCore \<lparr>httpMethod = ''POST'', json = Inr zeroYBody\<rparr>
     = Inr \<lparr>body = Text ''Missing Parameter `sliderY`'', status = 400\<rparr>"
    by blast
  with j f rest same show ?thesis by blast
qed

end
